theory Spec2Isabelle
  imports Complex_Main "HOL-Library.Sublist"
begin

section \<open>Strings\<close>

text \<open>
  JavaScript strings are modelled as \<open>string\<close>. The format identifiers and file names the
  program handles are ASCII, and the model of \<open>String.prototype.toUpperCase\<close> and
  \<open>toLowerCase\<close> maps the 26 ASCII letters and leaves every other character unchanged.
\<close>

definition lowerLetters :: string where
  "lowerLetters = ''abcdefghijklmnopqrstuvwxyz''"

definition upperLetters :: string where
  "upperLetters = ''ABCDEFGHIJKLMNOPQRSTUVWXYZ''"

definition upperChar :: "char \<Rightarrow> char" where
  "upperChar c = (case map_of (zip lowerLetters upperLetters) c of Some u \<Rightarrow> u | None \<Rightarrow> c)"

definition lowerChar :: "char \<Rightarrow> char" where
  "lowerChar c = (case map_of (zip upperLetters lowerLetters) c of Some l \<Rightarrow> l | None \<Rightarrow> c)"

definition toUpperCase :: "string \<Rightarrow> string" where
  "toUpperCase s = map upperChar s"

definition toLowerCase :: "string \<Rightarrow> string" where
  "toLowerCase s = map lowerChar s"

section \<open>Format compatibility table (data/conversions)\<close>

text \<open>
  One entry of \<open>conversionCategories\<close>. The \<open>icon\<close> field is a display glyph and is left
  out; \<open>name\<close> is written \<open>catName\<close>.
\<close>

record category =
  catName :: string
  description :: string
  color :: string
  formats :: "string list"

text \<open>
  The object literal \<open>conversionCategories\<close>, as an association list in the order of the
  literal, which is the order \<open>Object.entries\<close> enumerates its keys in.
\<close>

definition conversionCategories :: "(string \<times> category) list" where
  "conversionCategories =
    [(''images'', \<lparr>catName = ''Images'', description = ''Convert between image formats'',
        color = ''from-blue-500 to-purple-600'',
        formats = [''JPEG'', ''PNG'', ''WEBP'', ''BMP'', ''TIFF'', ''GIF'', ''SVG'', ''ICO'', ''HEIC'']\<rparr>),
     (''documents'', \<lparr>catName = ''Documents'', description = ''Convert documents and text files'',
        color = ''from-green-500 to-blue-600'',
        formats = [''PDF'', ''DOCX'', ''TXT'', ''HTML'', ''RTF'', ''XLSX'', ''CSV'', ''PPTX'', ''ODT'',
                   ''ODS'', ''ODP'']\<rparr>),
     (''video'', \<lparr>catName = ''Video'', description = ''Convert video files and formats'',
        color = ''from-purple-500 to-pink-600'',
        formats = [''MP4'', ''AVI'', ''MOV'', ''MKV'', ''WMV'', ''WEBM'', ''GIF'']\<rparr>),
     (''audio'', \<lparr>catName = ''Audio'', description = ''Convert audio files and formats'',
        color = ''from-pink-500 to-red-600'',
        formats = [''MP3'', ''WAV'', ''AAC'', ''FLAC'', ''OGG'']\<rparr>),
     (''archives'', \<lparr>catName = ''Archives'', description = ''Extract and compress archives'',
        color = ''from-yellow-500 to-orange-600'',
        formats = [''ZIP'', ''RAR'', ''7Z'', ''TAR'', ''GZ'']\<rparr>),
     (''other'', \<lparr>catName = ''Other'', description = ''Additional conversion tools'',
        color = ''from-gray-500 to-blue-600'',
        formats = [''JSON'', ''XML'', ''YAML'', ''CSV'']\<rparr>)]"

text \<open>The object literal \<open>supportedConversions\<close>: source format to its list of targets.\<close>

definition supportedConversions :: "(string \<times> string list) list" where
  "supportedConversions =
    [(''JPEG'', [''PNG'', ''WEBP'', ''BMP'', ''TIFF'', ''GIF'']),
     (''PNG'', [''JPEG'', ''WEBP'', ''BMP'', ''TIFF'', ''GIF'', ''ICO'']),
     (''WEBP'', [''JPEG'', ''PNG'', ''BMP'', ''TIFF'']),
     (''BMP'', [''JPEG'', ''PNG'', ''WEBP'', ''TIFF'']),
     (''TIFF'', [''JPEG'', ''PNG'', ''WEBP'', ''BMP'']),
     (''GIF'', [''JPEG'', ''PNG'', ''WEBP'', ''MP4'', ''WEBM'']),
     (''SVG'', [''PNG'', ''JPEG'']),
     (''ICO'', [''PNG'', ''JPEG'']),
     (''HEIC'', [''JPEG'', ''PNG'']),
     (''PDF'', [''DOCX'', ''TXT'', ''HTML'', ''RTF'', ''JPEG'', ''PNG'']),
     (''DOCX'', [''PDF'', ''TXT'', ''RTF'', ''HTML'', ''ODT'']),
     (''TXT'', [''DOCX'', ''PDF'', ''HTML'']),
     (''HTML'', [''PDF'', ''DOCX'', ''TXT'']),
     (''RTF'', [''DOCX'', ''PDF'', ''TXT'']),
     (''XLSX'', [''CSV'', ''PDF'', ''TXT'']),
     (''CSV'', [''XLSX'', ''PDF'', ''TXT'', ''JSON'']),
     (''JSON'', [''CSV'', ''XLSX'']),
     (''PPTX'', [''PDF'', ''JPEG'', ''ODP'']),
     (''MP4'', [''AVI'', ''MOV'', ''MKV'', ''WMV'', ''WEBM'', ''GIF'']),
     (''AVI'', [''MP4'', ''MOV'', ''MKV'', ''WMV'']),
     (''MOV'', [''MP4'', ''AVI'', ''MKV'', ''WMV'']),
     (''MKV'', [''MP4'', ''AVI'', ''MOV'', ''WMV'']),
     (''WMV'', [''MP4'', ''AVI'', ''MOV'', ''MKV'']),
     (''WEBM'', [''MP4'', ''AVI'', ''MOV'']),
     (''MP3'', [''WAV'', ''AAC'', ''FLAC'', ''OGG'']),
     (''WAV'', [''MP3'', ''AAC'', ''FLAC'', ''OGG'']),
     (''AAC'', [''MP3'', ''WAV'', ''FLAC'', ''OGG'']),
     (''FLAC'', [''MP3'', ''WAV'', ''AAC'', ''OGG'']),
     (''OGG'', [''MP3'', ''WAV'', ''AAC'', ''FLAC'']),
     (''ZIP'', [''7Z'', ''TAR'', ''GZ'']),
     (''RAR'', [''ZIP'', ''7Z'', ''TAR'', ''GZ'']),
     (''7Z'', [''ZIP'', ''TAR'', ''GZ'']),
     (''TAR'', [''ZIP'', ''7Z'', ''GZ'']),
     (''GZ'', [''ZIP'', ''7Z'', ''TAR''])]"

text \<open>
  \<open>getCategoryByFormat\<close>: the \<open>for ... of Object.entries(conversionCategories)\<close> loop,
  returning the key of the first category whose \<open>formats\<close> include the upper-cased
  argument, and \<open>'other'\<close> after the loop.
\<close>

fun categoryLoop :: "(string \<times> category) list \<Rightarrow> string \<Rightarrow> string" where
  "categoryLoop [] format = ''other''"
| "categoryLoop ((categoryKey, cat) # rest) format =
     (if toUpperCase format \<in> set (formats cat) then categoryKey
      else categoryLoop rest format)"

definition getCategoryByFormat :: "string \<Rightarrow> string" where
  "getCategoryByFormat format = categoryLoop conversionCategories format"

text \<open>
  \<open>isMultiPageConversion\<close>. Both arguments may be null or undefined (\<open>None\<close>): the
  optional chaining \<open>?.toUpperCase()\<close> then yields undefined, which is neither
  \<open>=== 'PDF'\<close> nor included in the array.
\<close>

definition isMultiPageConversion :: "string option \<Rightarrow> string option \<Rightarrow> bool" where
  "isMultiPageConversion sourceFormat targetFormat =
     (map_option toUpperCase sourceFormat = Some ''PDF'' \<and>
      (case map_option toUpperCase targetFormat of
         None \<Rightarrow> False
       | Some t \<Rightarrow> t \<in> set [''JPEG'', ''PNG'']))"

text \<open>
  Property access \<open>supportedConversions[key]\<close>. An object literal has its own properties
  and inherits those of \<open>Object.prototype\<close>, all of which are functions or objects, hence
  truthy and not arrays.
\<close>

definition objectPrototypeKeys :: "string list" where
  "objectPrototypeKeys =
    [''constructor'', ''hasOwnProperty'', ''isPrototypeOf'', ''propertyIsEnumerable'',
     ''toLocaleString'', ''toString'', ''valueOf'', ''__proto__'', ''__defineGetter__'',
     ''__defineSetter__'', ''__lookupGetter__'', ''__lookupSetter__'']"

datatype property = Targets "string list" | Inherited string | Undefined

definition getProperty :: "(string \<times> string list) list \<Rightarrow> string \<Rightarrow> property" where
  "getProperty obj key =
     (case map_of obj key of
        Some ts \<Rightarrow> Targets ts
      | None \<Rightarrow> if key \<in> set objectPrototypeKeys then Inherited key else Undefined)"

text \<open>
  The target list of the conversion page,
  \<open>state.sourceFormat ? supportedConversions[state.sourceFormat] || [] : []\<close>;
  \<open>state.sourceFormat\<close> is null (\<open>None\<close>) until a source format is chosen, and the empty
  string is falsy. An array, even an empty one, is truthy.
\<close>

definition targetFormats :: "string option \<Rightarrow> property" where
  "targetFormats sourceFormat =
     (case sourceFormat of
        None \<Rightarrow> Targets []
      | Some f \<Rightarrow>
          if f = [] then Targets []
          else (case getProperty supportedConversions f of
                  Undefined \<Rightarrow> Targets []
                | p \<Rightarrow> p))"

text \<open>
  A valid upper-case format string: non-empty, unchanged by \<open>toUpperCase\<close>, and a member
  of some category of \<open>conversionCategories\<close>.
\<close>

definition validFormat :: "string \<Rightarrow> bool" where
  "validFormat f =
     (f \<noteq> [] \<and> toUpperCase f = f \<and>
      (\<exists>c \<in> set conversionCategories. f \<in> set (formats (snd c))))"

text \<open>
  The member formats of a category key, \<open>conversionCategories[key]?.formats || []\<close>
  (conversion page).
\<close>

definition availableFormats :: "string \<Rightarrow> string list" where
  "availableFormats key =
     (case map_of conversionCategories key of None \<Rightarrow> [] | Some cat \<Rightarrow> formats cat)"

section \<open>Conversion client (services/conversionApi)\<close>

text \<open>\<open>ConversionApi.getCategoryFromFormat\<close>, with its five hard-coded lists.\<close>

definition imageFormats :: "string list" where
  "imageFormats = [''JPEG'', ''PNG'', ''WEBP'', ''BMP'', ''TIFF'', ''GIF'', ''SVG'', ''ICO'', ''HEIC'']"

definition documentFormats :: "string list" where
  "documentFormats = [''PDF'', ''DOCX'', ''TXT'', ''HTML'', ''RTF'', ''XLSX'', ''CSV'', ''PPTX'', ''ODT'',
     ''ODS'', ''ODP'']"

definition videoFormats :: "string list" where
  "videoFormats = [''MP4'', ''AVI'', ''MOV'', ''MKV'', ''WMV'', ''WEBM'']"

definition audioFormats :: "string list" where
  "audioFormats = [''MP3'', ''WAV'', ''AAC'', ''FLAC'', ''OGG'']"

definition archiveFormats :: "string list" where
  "archiveFormats = [''ZIP'', ''RAR'', ''7Z'', ''TAR'', ''GZ'']"

definition getCategoryFromFormat :: "string \<Rightarrow> string" where
  "getCategoryFromFormat format =
     (let upperFormat = toUpperCase format in
      if upperFormat \<in> set imageFormats then ''images''
      else if upperFormat \<in> set documentFormats then ''documents''
      else if upperFormat \<in> set videoFormats then ''video''
      else if upperFormat \<in> set audioFormats then ''audio''
      else if upperFormat \<in> set archiveFormats then ''archives''
      else ''other'')"

text \<open>
  A browser \<open>File\<close>: \<open>name\<close>, \<open>size\<close> in bytes and MIME \<open>type\<close>; the contents are
  never read.
\<close>

record jsFile =
  name :: string
  size_file :: nat
  type_file :: string

text \<open>
  A URL is either an object URL handed out by \<open>URL.createObjectURL\<close>, identified by the
  number of the call that created it, or a remote URL given by its text.
\<close>

datatype url = ObjectUrl nat | RemoteUrl string

text \<open>\<open>ConversionApiError\<close>: \<open>message\<close> and the optional HTTP \<open>status\<close>.\<close>

datatype apiError = ConversionApiError (message: string) (errorStatus: "nat option")

text \<open>An awaited promise: resolved, rejected, or never settled.\<close>

datatype ('e, 'a) promise = Resolved 'a | Rejected 'e | Pending

text \<open>One entry of \<open>results\<close> in the payload of \<open>/status/{jobId}\<close>.\<close>

record resultItem =
  original_filename :: string
  converted_filename :: string
  download_url :: "string option"
  item_size :: int
  item_success :: bool
  item_error :: "string option"

text \<open>
  The payload of \<open>/status/{jobId}\<close>. \<open>error_message\<close> is \<open>None\<close> when the field is
  absent or null.
\<close>

record statusData =
  status :: string
  job_progress :: int
  job_results :: "resultItem list"
  error_message :: "string option"

text \<open>
  \<open>a || b\<close> on an optional string: the empty string is falsy, as are null and undefined.
\<close>

definition orElse :: "string option \<Rightarrow> string \<Rightarrow> string" where
  "orElse a b = (case a of None \<Rightarrow> b | Some s \<Rightarrow> if s = [] then b else s)"

text \<open>
  \<open>ConversionApi.pollConversionStatus\<close>. The argument is the sequence of outcomes of the
  successive \<open>getConversionStatus\<close> calls, each either throwing (\<open>Inl\<close>) or returning a
  payload (\<open>Inr\<close>); one element is consumed by each run of \<open>poll\<close>, and \<open>setTimeout(poll,
  pollInterval)\<close> is the recursive call. When the sequence is used up with every payload
  asking to continue, the promise is still pending.
\<close>

fun pollConversionStatus :: "(apiError + statusData) list \<Rightarrow> (apiError, statusData) promise" where
  "pollConversionStatus [] = Pending"
| "pollConversionStatus (Inl err # rest) = Rejected err"
| "pollConversionStatus (Inr sd # rest) =
     (if status sd = ''completed'' then Resolved sd
      else if status sd = ''failed''
        then Rejected (ConversionApiError (orElse (error_message sd) ''Conversion failed'') None)
      else if status sd = ''processing'' \<or> status sd = ''pending''
        then pollConversionStatus rest
      else Rejected (ConversionApiError (''Unknown status: '' @ status sd) None))"

text \<open>
  The calls \<open>onProgress(statusData.progress, statusData.status)\<close> made by that loop, one
  for each payload received; the callback only reports and is taken not to throw.
\<close>

fun pollProgress :: "(apiError + statusData) list \<Rightarrow> (int \<times> string) list" where
  "pollProgress [] = []"
| "pollProgress (Inl err # rest) = []"
| "pollProgress (Inr sd # rest) =
     (job_progress sd, status sd) #
     (if status sd \<noteq> ''completed'' \<and> status sd \<noteq> ''failed'' \<and>
         (status sd = ''processing'' \<or> status sd = ''pending'')
      then pollProgress rest else [])"

text \<open>
  A per-file result as both clients build it (\<open>size\<close> is written \<open>size_result\<close>).
  \<open>originalFile\<close> is \<open>None\<close> when \<open>files.find\<close> returns undefined.
\<close>

record conversionResult =
  originalFile :: "jsFile option"
  convertedFileName :: string
  downloadUrl :: "url option"
  size_result :: int
  success :: bool
  error :: "string option"

text \<open>
  The \<open>conversionData\<close> object, with \<open>sourceFormat\<close>, \<open>targetFormat\<close>, \<open>success\<close> and
  \<open>results\<close> written with the prefix \<open>cd_\<close>; \<open>results\<close> is absent on the error path and
  \<open>errorMessage\<close> on the other.
\<close>

record conversionData =
  cd_sourceFormat :: string
  cd_targetFormat :: string
  category :: string
  files :: "jsFile list"
  cd_success :: bool
  successfulFiles :: nat
  failedFiles :: nat
  startTime :: int
  endTime :: int
  processingTimeMs :: int
  backendUsed :: string
  apiVersion :: string
  cd_results :: "conversionResult list option"
  errorMessage :: "string option"

text \<open>
  The object returned by \<open>convertFiles\<close>: its top-level \<open>success\<close> field is written
  \<open>outcome_success\<close>.
\<close>

record outcome =
  outcome_success :: bool
  results :: "conversionResult list"
  outcome_message :: string
  outcome_data :: conversionData

text \<open>Decimal rendering of a number inside a template literal.\<close>

fun digits :: "nat \<Rightarrow> string" where
  "digits n = (if n < 10 then [''0123456789'' ! n]
               else digits (n div 10) @ [''0123456789'' ! (n mod 10)])"

declare digits.simps [simp del]

definition summaryMessage :: "nat \<Rightarrow> nat \<Rightarrow> string" where
  "summaryMessage k n =
     ''Successfully converted '' @ digits k @ '' of '' @ digits n @ '' files''"

definition API_BASE_URL :: string where
  "API_BASE_URL = ''https://filealchemy-production.up.railway.app/api''"

text \<open>\<open>API_BASE_URL.replace('/api', '')\<close>: the first occurrence of \<open>/api\<close> is removed.\<close>

fun removeFirst :: "string \<Rightarrow> string \<Rightarrow> string" where
  "removeFirst pat [] = []"
| "removeFirst pat (c # cs) =
     (if pat \<noteq> [] \<and> prefix pat (c # cs) then drop (length pat) (c # cs)
      else c # removeFirst pat cs)"

definition processResult :: "jsFile list \<Rightarrow> resultItem \<Rightarrow> conversionResult" where
  "processResult fs item =
     \<lparr>originalFile = find (\<lambda>f. name f = original_filename item) fs,
      convertedFileName = converted_filename item,
      downloadUrl = (case download_url item of
                       None \<Rightarrow> None
                     | Some u \<Rightarrow> if u = [] then None
                                else Some (RemoteUrl (removeFirst ''/api'' API_BASE_URL @ u))),
      size_result = item_size item,
      success = item_success item,
      error = item_error item\<rparr>"

text \<open>
  \<open>ConversionApi.convertFiles\<close>. \<open>upload\<close> is what \<open>startConversion\<close> throws or returns
  (the job id), \<open>polls\<close> the outcomes of the status calls, \<open>t0\<close> and \<open>t1\<close> the two readings
  of \<open>Date.now()\<close>. A rejection carries the error together with the \<open>conversionData\<close>
  attached to it. The progress callback is passed on to the polling loop.
\<close>

definition apiConvertFiles ::
  "(apiError + string) \<Rightarrow> (apiError + statusData) list \<Rightarrow> int \<Rightarrow> int \<Rightarrow>
   jsFile list \<Rightarrow> string \<Rightarrow> string \<Rightarrow> (apiError \<times> conversionData, outcome) promise" where
  "apiConvertFiles upload polls t0 t1 fs sf tf =
     (let failure = (\<lambda>err.
            Rejected (err,
              \<lparr>cd_sourceFormat = sf, cd_targetFormat = tf, category = getCategoryFromFormat sf,
               files = fs, cd_success = False, successfulFiles = 0, failedFiles = length fs,
               startTime = t0, endTime = t1, processingTimeMs = t1 - t0,
               backendUsed = ''api'', apiVersion = ''1.0'', cd_results = None,
               errorMessage = Some (message err)\<rparr>))
      in case upload of
           Inl err \<Rightarrow> failure err
         | Inr jobId \<Rightarrow>
            (case pollConversionStatus polls of
               Pending \<Rightarrow> Pending
             | Rejected err \<Rightarrow> failure err
             | Resolved result \<Rightarrow>
                (let processedResults = map (processResult fs) (job_results result);
                     successfulFiles = length (filter success processedResults);
                     failedFiles = length processedResults - successfulFiles
                 in Resolved
                     \<lparr>outcome_success = True,
                      results = processedResults,
                      outcome_message = summaryMessage successfulFiles (length processedResults),
                      outcome_data =
                        \<lparr>cd_sourceFormat = sf, cd_targetFormat = tf,
                         category = getCategoryFromFormat sf, files = fs,
                         cd_success = (successfulFiles > 0),
                         successfulFiles = successfulFiles, failedFiles = failedFiles,
                         startTime = t0, endTime = t1, processingTimeMs = t1 - t0,
                         backendUsed = ''api'', apiVersion = ''1.0'',
                         cd_results = Some processedResults, errorMessage = None\<rparr>\<rparr>)))"

section \<open>Mock conversion fallback\<close>

text \<open>
  \<open>Math.round\<close> rounds to the nearest integer, a tie towards plus infinity. Numbers are
  modelled as rationals; every value \<open>Math.random()\<close> can return is one.
\<close>

definition Math_round :: "rat \<Rightarrow> int" where
  "Math_round x = \<lfloor>x + 1 / 2\<rfloor>"

text \<open>
  The regular expression \<open>/\.[^/.]+$/\<close> matched against a whole suffix of the input: a dot,
  then one or more characters that are neither a slash nor a dot, up to the end.
\<close>

definition extMatch :: "string \<Rightarrow> bool" where
  "extMatch s =
     (case s of
        [] \<Rightarrow> False
      | c # cs \<Rightarrow> c = CHR ''.'' \<and> cs \<noteq> [] \<and> (\<forall>d \<in> set cs. d \<noteq> CHR ''/'' \<and> d \<noteq> CHR ''.''))"

text \<open>
  The replacement text of \<open>String.prototype.replace\<close> for a pattern without capture
  groups whose match reaches the end of the input: \<open>$$\<close> is a dollar sign, \<open>$&\<close> the match,
  \<open>$`\<close> the text before the match, \<open>$'\<close> the (empty) text after it; any other character
  stands for itself.
\<close>

fun getSubstitution :: "string \<Rightarrow> string \<Rightarrow> string \<Rightarrow> string" where
  "getSubstitution matched before [] = []"
| "getSubstitution matched before [c] = [c]"
| "getSubstitution matched before (c # d # rest) =
     (if c = CHR ''$'' \<and> d = CHR ''$'' then CHR ''$'' # getSubstitution matched before rest
      else if c = CHR ''$'' \<and> d = CHR ''&'' then matched @ getSubstitution matched before rest
      else if c = CHR ''$'' \<and> d = CHR 0x60 then before @ getSubstitution matched before rest
      else if c = CHR ''$'' \<and> d = CHR 0x27 then getSubstitution matched before rest
      else c # getSubstitution matched before (d # rest))"

text \<open>
  \<open>name.replace(/\.[^/.]+$/, replacement)\<close>: the start positions are tried from the left;
  the text from the first position where the pattern matches is replaced, and a string
  with no match is returned unchanged.
\<close>

fun replaceFrom :: "string \<Rightarrow> string \<Rightarrow> string \<Rightarrow> string" where
  "replaceFrom before [] replacement = before"
| "replaceFrom before (c # cs) replacement =
     (if extMatch (c # cs) then before @ getSubstitution (c # cs) before replacement
      else replaceFrom (before @ [c]) cs replacement)"

definition replaceExtension :: "string \<Rightarrow> string \<Rightarrow> string" where
  "replaceExtension fileName replacement = replaceFrom [] fileName replacement"

text \<open>
  The result pushed for \<open>files[i]\<close>. \<open>rnd\<close> is the sequence of values \<open>Math.random()\<close>
  returns to this call: the size draw of file \<open>i\<close> is \<open>rnd (2 * i)\<close>, evaluated first, and
  its success draw is \<open>rnd (2 * i + 1)\<close>. \<open>blob0\<close> numbers the first object URL created.
\<close>

definition mockResult :: "(nat \<Rightarrow> rat) \<Rightarrow> nat \<Rightarrow> string \<Rightarrow> nat \<Rightarrow> jsFile \<Rightarrow> conversionResult" where
  "mockResult rnd blob0 tf i file =
     \<lparr>originalFile = Some file,
      convertedFileName = replaceExtension (name file) (''.'' @ toLowerCase tf),
      downloadUrl = Some (ObjectUrl (blob0 + i)),
      size_result = Math_round (of_nat (size_file file) * (7 / 10 + rnd (2 * i) * (6 / 10))),
      success = (rnd (2 * i + 1) > 5 / 100),
      error = None\<rparr>"

text \<open>The loop \<open>for (let i = 0; i < totalFiles; i++)\<close> with its \<open>results.push\<close>.\<close>

function mockLoop ::
  "(nat \<Rightarrow> rat) \<Rightarrow> nat \<Rightarrow> string \<Rightarrow> jsFile list \<Rightarrow> nat \<Rightarrow> conversionResult list \<Rightarrow>
   conversionResult list" where
  "mockLoop rnd blob0 tf fs i acc =
     (if i < length fs
      then mockLoop rnd blob0 tf fs (Suc i) (acc @ [mockResult rnd blob0 tf i (fs ! i)])
      else acc)"
  by pat_completeness auto
termination
  by (relation "measure (\<lambda>(rnd, blob0, tf, fs, i, acc). length fs - i)") auto

declare mockLoop.simps [simp del]

text \<open>The calls \<open>onProgress(Math.round(totalProgress), 'processing')\<close> of that loop.\<close>

definition mockProgress :: "nat \<Rightarrow> (int \<times> string) list" where
  "mockProgress totalFiles =
     concat (map (\<lambda>i. map (\<lambda>p. (Math_round (of_nat (i * 100 + p) / of_nat totalFiles),
                                  ''processing''))
                        [0, 10, 20, 30, 40, 50, 60, 70, 80, 90, 100])
                 [0..<totalFiles])"

text \<open>\<open>MockConversionApi.convertFiles\<close>.\<close>

definition mockConvertFiles ::
  "(nat \<Rightarrow> rat) \<Rightarrow> nat \<Rightarrow> int \<Rightarrow> int \<Rightarrow> jsFile list \<Rightarrow> string \<Rightarrow> string \<Rightarrow> outcome" where
  "mockConvertFiles rnd blob0 t0 t1 fs sf tf =
     (let totalFiles = length fs;
          rs = mockLoop rnd blob0 tf fs 0 [];
          successfulFiles = length (filter success rs);
          failedFiles = length rs - successfulFiles
      in \<lparr>outcome_success = True,
          results = rs,
          outcome_message = summaryMessage successfulFiles totalFiles,
          outcome_data =
            \<lparr>cd_sourceFormat = sf, cd_targetFormat = tf,
             category = getCategoryFromFormat sf, files = fs,
             cd_success = (successfulFiles > 0),
             successfulFiles = successfulFiles, failedFiles = failedFiles,
             startTime = t0, endTime = t1, processingTimeMs = t1 - t0,
             backendUsed = ''mock'', apiVersion = ''1.0'',
             cd_results = Some rs, errorMessage = None\<rparr>\<rparr>)"

section \<open>Conversion orchestrator (SmartConversionService)\<close>

text \<open>
  What the outside world answers during one call of the service: the outcome of
  \<open>ConversionApi.checkHealth\<close>, of \<open>getSupportedFormats\<close>, of \<open>startConversion\<close> and of the
  status calls, the clock readings of the real client and of the mock, the random draws
  and the number of the next object URL.
\<close>

record env =
  env_health :: "apiError + unit"
  env_formats :: "apiError + (string \<times> string list) list"
  env_upload :: "apiError + string"
  env_polls :: "(apiError + statusData) list"
  env_api_t0 :: int
  env_api_t1 :: int
  env_mock_t0 :: int
  env_mock_t1 :: int
  env_rnd :: "nat \<Rightarrow> rat"
  env_blob0 :: nat

text \<open>The calls the service makes on its collaborators, in order.\<close>

datatype call = CheckHealth | ApiConvert | ApiGetFormats | MockConvert

text \<open>
  \<open>checkBackendAvailability\<close>: the static field \<open>backendAvailable\<close> (\<open>None\<close> is null) is
  passed in and returned; the result is the boolean, the new field and the calls made.
\<close>

definition checkBackendAvailability ::
  "bool option \<Rightarrow> env \<Rightarrow> bool \<times> bool option \<times> call list" where
  "checkBackendAvailability backendAvailable e =
     (case backendAvailable of
        Some b \<Rightarrow> (b, Some b, [])
      | None \<Rightarrow>
         (case env_health e of
            Inr ok \<Rightarrow> (True, Some True, [CheckHealth])
          | Inl err \<Rightarrow> (False, Some False, [CheckHealth])))"

definition runMock :: "env \<Rightarrow> jsFile list \<Rightarrow> string \<Rightarrow> string \<Rightarrow> outcome" where
  "runMock e fs sf tf =
     mockConvertFiles (env_rnd e) (env_blob0 e) (env_mock_t0 e) (env_mock_t1 e) fs sf tf"

text \<open>\<open>SmartConversionService.convertFiles\<close>.\<close>

definition smartConvertFiles ::
  "bool option \<Rightarrow> env \<Rightarrow> jsFile list \<Rightarrow> string \<Rightarrow> string \<Rightarrow>
   (apiError \<times> conversionData, outcome) promise \<times> bool option \<times> call list" where
  "smartConvertFiles backendAvailable e fs sf tf =
     (case checkBackendAvailability backendAvailable e of
        (isBackendAvailable, b1, calls) \<Rightarrow>
          if isBackendAvailable then
            (case apiConvertFiles (env_upload e) (env_polls e) (env_api_t0 e) (env_api_t1 e)
                    fs sf tf of
               Resolved r \<Rightarrow> (Resolved r, b1, calls @ [ApiConvert])
             | Pending \<Rightarrow> (Pending, b1, calls @ [ApiConvert])
             | Rejected err \<Rightarrow>
                 (Resolved (runMock e fs sf tf), Some False, calls @ [ApiConvert, MockConvert]))
          else (Resolved (runMock e fs sf tf), b1, calls @ [MockConvert]))"

text \<open>\<open>SmartConversionService.getSupportedFormats\<close>; \<open>None\<close> is the returned null.\<close>

definition smartGetSupportedFormats ::
  "bool option \<Rightarrow> env \<Rightarrow> (string \<times> string list) list option \<times> bool option \<times> call list" where
  "smartGetSupportedFormats backendAvailable e =
     (case checkBackendAvailability backendAvailable e of
        (isBackendAvailable, b1, calls) \<Rightarrow>
          if isBackendAvailable then
            (case env_formats e of
               Inr fmts \<Rightarrow> (Some fmts, b1, calls @ [ApiGetFormats])
             | Inl err \<Rightarrow> (None, b1, calls @ [ApiGetFormats]))
          else (None, b1, calls))"

text \<open>
  A session: the calls made on the service one after the other, each with the answers of
  the outside world during it. \<open>session\<close> returns the calls each request made on the
  collaborators and the final value of \<open>backendAvailable\<close>.
\<close>

datatype request =
  ConvertFiles env "jsFile list" string string
| GetSupportedFormats env

datatype reply =
  Converted "(apiError \<times> conversionData, outcome) promise"
| Formats "(string \<times> string list) list option"

fun serve :: "bool option \<Rightarrow> request \<Rightarrow> reply \<times> bool option \<times> call list" where
  "serve b (ConvertFiles e fs sf tf) =
     (case smartConvertFiles b e fs sf tf of (r, b1, calls) \<Rightarrow> (Converted r, b1, calls))"
| "serve b (GetSupportedFormats e) =
     (case smartGetSupportedFormats b e of (r, b1, calls) \<Rightarrow> (Formats r, b1, calls))"

fun session :: "bool option \<Rightarrow> request list \<Rightarrow> (reply \<times> call list) list \<times> bool option" where
  "session b [] = ([], b)"
| "session b (rq # rqs) =
     (case serve b rq of
        (r, b1, calls) \<Rightarrow>
          (case session b1 rqs of (later, b2) \<Rightarrow> ((r, calls) # later, b2)))"

section \<open>Conversion session state (AppContext reducer and useConversion hook)\<close>

datatype notification =
  Notification (note_id: rat) (note_type: string) (note_message: string) (note_title: string)

record appState =
  darkMode :: bool
  notificationsEnabled :: bool
  selectedCategory :: "string option"
  sourceFormat :: "string option"
  targetFormat :: "string option"
  selectedFiles :: "jsFile list"
  previewUrls :: "url option list"
  isConverting :: bool
  progress :: int
  conversionResults :: "conversionResult list"
  notifications :: "notification list"

text \<open>\<open>initialState\<close>; \<open>getInitialDarkMode()\<close> reads the browser and is a parameter.\<close>

definition initialState :: "bool \<Rightarrow> appState" where
  "initialState dark =
     \<lparr>darkMode = dark, notificationsEnabled = True,
      selectedCategory = None, sourceFormat = None, targetFormat = None,
      selectedFiles = [], previewUrls = [],
      isConverting = False, progress = 0, conversionResults = [],
      notifications = []\<rparr>"

text \<open>
  The actions with their payloads. The \<open>previews\<close> of \<open>SET_FILES\<close> and \<open>ADD_FILES\<close> may be
  missing (\<open>None\<close>); \<open>ADD_NOTIFICATION\<close> carries the id \<open>Date.now() + Math.random()\<close> the
  reducer computes; \<open>OTHER\<close> is any action type the \<open>switch\<close> does not list.
\<close>

datatype action =
  TOGGLE_DARK_MODE
| TOGGLE_NOTIFICATIONS
| SET_CONVERSION "string option" "string option" "string option"
| SET_FILES "jsFile list" "url option list option"
| ADD_FILES "jsFile list" "url option list option"
| REMOVE_FILE nat
| CLEAR_FILES
| START_CONVERSION
| UPDATE_PROGRESS int
| COMPLETE_CONVERSION "conversionResult list"
| RESET_CONVERSION
| RESET_CONVERSION_KEEP_CATEGORY
| ADD_NOTIFICATION rat string string string
| REMOVE_NOTIFICATION rat
| CLEAR_NOTIFICATIONS
| OTHER

text \<open>\<open>xs.filter((_, index) => index !== i)\<close>.\<close>

definition filterIndex :: "nat \<Rightarrow> 'a list \<Rightarrow> 'a list" where
  "filterIndex i xs = map snd (filter (\<lambda>p. fst p \<noteq> i) (zip [0..<length xs] xs))"

fun appReducer :: "appState \<Rightarrow> action \<Rightarrow> appState" where
  "appReducer state TOGGLE_DARK_MODE = state\<lparr>darkMode := \<not> darkMode state\<rparr>"
| "appReducer state TOGGLE_NOTIFICATIONS =
     state\<lparr>notificationsEnabled := \<not> notificationsEnabled state\<rparr>"
| "appReducer state (SET_CONVERSION cat sf tf) =
     state\<lparr>selectedCategory := cat, sourceFormat := sf, targetFormat := tf\<rparr>"
| "appReducer state (SET_FILES fs previews) =
     state\<lparr>selectedFiles := fs,
           previewUrls := (case previews of None \<Rightarrow> [] | Some ps \<Rightarrow> ps)\<rparr>"
| "appReducer state (ADD_FILES fs previews) =
     state\<lparr>selectedFiles := selectedFiles state @ fs,
           previewUrls := previewUrls state @ (case previews of None \<Rightarrow> [] | Some ps \<Rightarrow> ps)\<rparr>"
| "appReducer state (REMOVE_FILE index) =
     (let newFiles = filterIndex index (selectedFiles state);
          newPreviews = filterIndex index (previewUrls state)
      in state\<lparr>selectedFiles := newFiles, previewUrls := newPreviews\<rparr>)"
| "appReducer state CLEAR_FILES =
     state\<lparr>selectedFiles := [], previewUrls := [], conversionResults := []\<rparr>"
| "appReducer state START_CONVERSION =
     state\<lparr>isConverting := True, progress := 0, conversionResults := []\<rparr>"
| "appReducer state (UPDATE_PROGRESS p) = state\<lparr>progress := p\<rparr>"
| "appReducer state (COMPLETE_CONVERSION rs) =
     state\<lparr>isConverting := False, progress := 100, conversionResults := rs\<rparr>"
| "appReducer state RESET_CONVERSION =
     state\<lparr>selectedCategory := None, sourceFormat := None, targetFormat := None,
           selectedFiles := [], previewUrls := [],
           isConverting := False, progress := 0, conversionResults := []\<rparr>"
| "appReducer state RESET_CONVERSION_KEEP_CATEGORY =
     state\<lparr>sourceFormat := None, targetFormat := None,
           selectedFiles := [], previewUrls := [],
           isConverting := False, progress := 0, conversionResults := []\<rparr>"
| "appReducer state (ADD_NOTIFICATION i ty msg title) =
     (if \<not> notificationsEnabled state then state
      else state\<lparr>notifications := notifications state @ [Notification i ty msg title]\<rparr>)"
| "appReducer state (REMOVE_NOTIFICATION i) =
     state\<lparr>notifications := filter (\<lambda>n. note_id n \<noteq> i) (notifications state)\<rparr>"
| "appReducer state CLEAR_NOTIFICATIONS = state\<lparr>notifications := []\<rparr>"
| "appReducer state OTHER = state"

text \<open>
  The hook works on the reducer state and on the browser's object URLs: the number of the
  next URL \<open>URL.createObjectURL\<close> will hand out, and the arguments of the calls of
  \<open>URL.revokeObjectURL\<close> so far, in order.
\<close>

record world =
  app :: appState
  nextObjectUrl :: nat
  revoked :: "url list"

text \<open>
  \<open>generatePreviewUrls\<close>: an object URL for each file whose type starts with \<open>image/\<close>,
  null for the others; the counter of object URLs is passed through.
\<close>

fun generatePreviewUrls :: "jsFile list \<Rightarrow> nat \<Rightarrow> url option list \<times> nat" where
  "generatePreviewUrls [] n = ([], n)"
| "generatePreviewUrls (file # rest) n =
     (if prefix ''image/'' (type_file file)
      then (case generatePreviewUrls rest (Suc n) of (ps, n') \<Rightarrow> (Some (ObjectUrl n) # ps, n'))
      else (case generatePreviewUrls rest n of (ps, n') \<Rightarrow> (None # ps, n')))"

text \<open>Truthiness of a preview entry: null and the empty string are falsy.\<close>

fun truthy :: "url option \<Rightarrow> bool" where
  "truthy None = False"
| "truthy (Some (ObjectUrl n)) = True"
| "truthy (Some (RemoteUrl s)) = (s \<noteq> [])"

definition dispatch :: "action \<Rightarrow> world \<Rightarrow> world" where
  "dispatch a w = w\<lparr>app := appReducer (app w) a\<rparr>"

definition addFiles :: "jsFile list \<Rightarrow> world \<Rightarrow> world" where
  "addFiles fileArray w =
     (case generatePreviewUrls fileArray (nextObjectUrl w) of
        (previews, n') \<Rightarrow> dispatch (ADD_FILES fileArray (Some previews)) (w\<lparr>nextObjectUrl := n'\<rparr>))"

definition setFiles :: "jsFile list \<Rightarrow> world \<Rightarrow> world" where
  "setFiles fileArray w =
     (case generatePreviewUrls fileArray (nextObjectUrl w) of
        (previews, n') \<Rightarrow> dispatch (SET_FILES fileArray (Some previews)) (w\<lparr>nextObjectUrl := n'\<rparr>))"

text \<open>
  \<open>removeFile\<close>: \<open>state.previewUrls[index]\<close> is undefined, hence falsy, when the index is
  out of range.
\<close>

definition removeFile :: "nat \<Rightarrow> world \<Rightarrow> world" where
  "removeFile index w =
     (let ps = previewUrls (app w);
          w1 = (if index < length ps \<and> truthy (ps ! index)
                then w\<lparr>revoked := revoked w @ [the (ps ! index)]\<rparr>
                else w)
      in dispatch (REMOVE_FILE index) w1)"

text \<open>\<open>state.previewUrls.forEach(url => { if (url) URL.revokeObjectURL(url); })\<close>.\<close>

definition revokeAll :: "world \<Rightarrow> world" where
  "revokeAll w = w\<lparr>revoked := revoked w @ map the (filter truthy (previewUrls (app w)))\<rparr>"

definition clearFiles :: "world \<Rightarrow> world" where
  "clearFiles w = dispatch CLEAR_FILES (revokeAll w)"

definition resetConversion :: "world \<Rightarrow> world" where
  "resetConversion w = dispatch RESET_CONVERSION (revokeAll w)"

definition resetConversionKeepCategory :: "world \<Rightarrow> world" where
  "resetConversionKeepCategory w = dispatch RESET_CONVERSION_KEEP_CATEGORY (revokeAll w)"

text \<open>
  The actions that code other than these file operations dispatches: the conversion
  lifecycle, the format selection, the settings and the notifications.
\<close>

fun dispatchedDirectly :: "action \<Rightarrow> bool" where
  "dispatchedDirectly (SET_FILES fs ps) = False"
| "dispatchedDirectly (ADD_FILES fs ps) = False"
| "dispatchedDirectly (REMOVE_FILE i) = False"
| "dispatchedDirectly CLEAR_FILES = False"
| "dispatchedDirectly RESET_CONVERSION = False"
| "dispatchedDirectly RESET_CONVERSION_KEEP_CATEGORY = False"
| "dispatchedDirectly a = True"

text \<open>
  The session states an application run can reach: from the initial state, by the file
  operations of the hook, by the directly dispatched actions, and by other code (the mock
  client) creating object URLs of its own.
\<close>

inductive reachable :: "world \<Rightarrow> bool" where
  start: "reachable \<lparr>app = initialState dark, nextObjectUrl = n, revoked = []\<rparr>"
| add: "reachable w \<Longrightarrow> reachable (addFiles fs w)"
| set: "reachable w \<Longrightarrow> reachable (setFiles fs w)"
| remove: "reachable w \<Longrightarrow> reachable (removeFile i w)"
| clear: "reachable w \<Longrightarrow> reachable (clearFiles w)"
| reset: "reachable w \<Longrightarrow> reachable (resetConversion w)"
| resetKeep: "reachable w \<Longrightarrow> reachable (resetConversionKeepCategory w)"
| direct: "reachable w \<Longrightarrow> dispatchedDirectly a \<Longrightarrow> reachable (dispatch a w)"
| elsewhere: "reachable w \<Longrightarrow> reachable (w\<lparr>nextObjectUrl := nextObjectUrl w + k\<rparr>)"

section \<open>Auxiliary notions and example data\<close>

text \<open>A status outcome after which the polling loop schedules another poll.\<close>

definition keepsPolling :: "(apiError + statusData) \<Rightarrow> bool" where
  "keepsPolling r =
     (case r of
        Inl err \<Rightarrow> False
      | Inr sd \<Rightarrow> status sd = ''processing'' \<or> status sd = ''pending'')"




text \<open>The object URLs the session state holds, in list order.\<close>

definition liveUrls :: "world \<Rightarrow> url list" where
  "liveUrls w = map the (filter truthy (previewUrls (app w)))"

text \<open>
  Index alignment of files and previews: the lists have the same length and entry \<open>j\<close> of
  the previews is a URL exactly when file \<open>j\<close> is an image.
\<close>

definition aligned :: "jsFile list \<Rightarrow> url option list \<Rightarrow> bool" where
  "aligned fs ps = list_all2 (\<lambda>f p. (p \<noteq> None) = prefix ''image/'' (type_file f)) fs ps"

text \<open>A preview entry is null or an object URL numbered from \<open>lo\<close> up to, not including, \<open>hi\<close>.\<close>

definition fresh :: "nat \<Rightarrow> nat \<Rightarrow> url option \<Rightarrow> bool" where
  "fresh lo hi p =
     (case p of
        None \<Rightarrow> True
      | Some (ObjectUrl k) \<Rightarrow> lo \<le> k \<and> k < hi
      | Some (RemoteUrl s) \<Rightarrow> False)"

definition sessionInv :: "world \<Rightarrow> bool" where
  "sessionInv w =
     (aligned (selectedFiles (app w)) (previewUrls (app w)) \<and>
      (\<forall>p \<in> set (previewUrls (app w)). fresh 0 (nextObjectUrl w) p) \<and>
      (\<forall>u \<in> set (revoked w). fresh 0 (nextObjectUrl w) (Some u)) \<and>
      distinct (liveUrls w @ revoked w))"

text \<open>Example data.\<close>

definition unluckyDraws :: "nat \<Rightarrow> rat" where
  "unluckyDraws n = 1 / 100"

definition luckyDraws :: "nat \<Rightarrow> rat" where
  "luckyDraws n = 1 / 2"

definition twoJpegs :: "jsFile list" where
  "twoJpegs =
     [\<lparr>name = ''a.jpg'', size_file = 2, type_file = ''image/jpeg''\<rparr>,
      \<lparr>name = ''b.jpg'', size_file = 1000, type_file = ''image/jpeg''\<rparr>]"

definition threeImages :: "jsFile list" where
  "threeImages =
     [\<lparr>name = ''a.jpg'', size_file = 2, type_file = ''image/jpeg''\<rparr>,
      \<lparr>name = ''b.jpg'', size_file = 1000, type_file = ''image/jpeg''\<rparr>,
      \<lparr>name = ''c.png'', size_file = 30, type_file = ''image/png''\<rparr>]"

definition threeFileSession :: world where
  "threeFileSession =
     addFiles threeImages \<lparr>app = initialState False, nextObjectUrl = 0, revoked = []\<rparr>"

definition failedWith :: "string option \<Rightarrow> statusData" where
  "failedWith m = \<lparr>status = ''failed'', job_progress = 0, job_results = [], error_message = m\<rparr>"

definition stillProcessing :: statusData where
  "stillProcessing =
     \<lparr>status = ''processing'', job_progress = 40, job_results = [], error_message = None\<rparr>"

definition completedJob :: statusData where
  "completedJob =
     \<lparr>status = ''completed'', job_progress = 100,
      job_results =
        [\<lparr>original_filename = ''a.jpg'', converted_filename = ''a.png'',
          download_url = Some ''/api/download/a.png'', item_size = 3, item_success = True,
          item_error = None\<rparr>,
         \<lparr>original_filename = ''b.jpg'', converted_filename = ''b.png'',
          download_url = None, item_size = 0, item_success = False,
          item_error = Some ''unreadable''\<rparr>],
      error_message = None\<rparr>"

text \<open>A backend that answers the probe and converts, and one that answers the probe and
  then rejects the upload.\<close>

definition healthyEnv :: env where
  "healthyEnv =
     \<lparr>env_health = Inr (), env_formats = Inr supportedConversions,
      env_upload = Inr ''job-1'', env_polls = [Inr stillProcessing, Inr completedJob],
      env_api_t0 = 0, env_api_t1 = 2000, env_mock_t0 = 0, env_mock_t1 = 1100,
      env_rnd = luckyDraws, env_blob0 = 0\<rparr>"


section \<open>Properties of the format table\<close>

lemmas case_defs =
  toUpperCase_def upperChar_def lowerChar_def toLowerCase_def lowerLetters_def upperLetters_def

lemma availableFormats_unfold:
  "availableFormats k =
     (if k = ''images'' then imageFormats
      else if k = ''documents'' then documentFormats
      else if k = ''video'' then videoFormats @ [''GIF'']
      else if k = ''audio'' then audioFormats
      else if k = ''archives'' then archiveFormats
      else if k = ''other'' then [''JSON'', ''XML'', ''YAML'', ''CSV'']
      else [])"
  by (simp add: availableFormats_def conversionCategories_def imageFormats_def
      documentFormats_def videoFormats_def audioFormats_def archiveFormats_def)

lemma list_exclusion:
  "f \<in> set imageFormats \<Longrightarrow>
     f \<notin> set documentFormats \<and> f \<notin> set videoFormats \<and> f \<notin> set audioFormats \<and>
     f \<notin> set archiveFormats \<and> f \<notin> set [''JSON'', ''XML'', ''YAML'', ''CSV'']"
  "f \<in> set documentFormats \<Longrightarrow>
     f \<notin> set videoFormats \<and> f \<notin> set audioFormats \<and> f \<notin> set archiveFormats \<and> f \<noteq> ''GIF''"
  "f \<in> set videoFormats \<Longrightarrow>
     f \<notin> set audioFormats \<and> f \<notin> set archiveFormats \<and>
     f \<notin> set [''JSON'', ''XML'', ''YAML'', ''CSV''] \<and> f \<noteq> ''GIF''"
  "f \<in> set audioFormats \<Longrightarrow>
     f \<notin> set archiveFormats \<and> f \<notin> set [''JSON'', ''XML'', ''YAML'', ''CSV''] \<and> f \<noteq> ''GIF''"
  "f \<in> set archiveFormats \<Longrightarrow> f \<notin> set [''JSON'', ''XML'', ''YAML'', ''CSV''] \<and> f \<noteq> ''GIF''"
  "f \<in> set [''JSON'', ''XML'', ''YAML'', ''CSV''] \<Longrightarrow> f \<in> set documentFormats \<Longrightarrow> f = ''CSV''"
  "f \<in> set [''JSON'', ''XML'', ''YAML'', ''CSV''] \<Longrightarrow> f \<noteq> ''GIF''"
  by (auto simp: imageFormats_def documentFormats_def videoFormats_def audioFormats_def
      archiveFormats_def)

lemma membership_cases:
  "f \<in> set (availableFormats k) \<Longrightarrow>
     (k = ''images'' \<and> f \<in> set imageFormats) \<or>
     (k = ''documents'' \<and> f \<in> set documentFormats) \<or>
     (k = ''video'' \<and> (f \<in> set videoFormats \<or> f = ''GIF'')) \<or>
     (k = ''audio'' \<and> f \<in> set audioFormats) \<or>
     (k = ''archives'' \<and> f \<in> set archiveFormats) \<or>
     (k = ''other'' \<and> f \<in> set [''JSON'', ''XML'', ''YAML'', ''CSV''])"
  by (auto simp add: availableFormats_unfold split: if_splits)

text \<open>
  The case analysis behind the overlap theorem, with the keys, lists and the two shared
  formats as variables.
\<close>

lemma two_memberships:
  assumes "k1 \<noteq> k2"
    and "(k1 = a \<and> f \<in> SI) \<or> (k1 = b \<and> f \<in> SD) \<or> (k1 = c \<and> (f \<in> SV \<or> f = gif)) \<or>
         (k1 = d \<and> f \<in> SA) \<or> (k1 = e \<and> f \<in> SR) \<or> (k1 = h \<and> f \<in> SO)"
    and "(k2 = a \<and> f \<in> SI) \<or> (k2 = b \<and> f \<in> SD) \<or> (k2 = c \<and> (f \<in> SV \<or> f = gif)) \<or>
         (k2 = d \<and> f \<in> SA) \<or> (k2 = e \<and> f \<in> SR) \<or> (k2 = h \<and> f \<in> SO)"
    and "f \<in> SI \<Longrightarrow> f \<notin> SD \<and> f \<notin> SV \<and> f \<notin> SA \<and> f \<notin> SR \<and> f \<notin> SO"
    and "f \<in> SD \<Longrightarrow> f \<notin> SV \<and> f \<notin> SA \<and> f \<notin> SR \<and> f \<noteq> gif"
    and "f \<in> SV \<Longrightarrow> f \<notin> SA \<and> f \<notin> SR \<and> f \<notin> SO \<and> f \<noteq> gif"
    and "f \<in> SA \<Longrightarrow> f \<notin> SR \<and> f \<notin> SO \<and> f \<noteq> gif"
    and "f \<in> SR \<Longrightarrow> f \<notin> SO \<and> f \<noteq> gif"
    and "f \<in> SO \<Longrightarrow> f \<in> SD \<Longrightarrow> f = csv"
    and "f \<in> SO \<Longrightarrow> f \<noteq> gif"
  shows "(f = gif \<and> ((k1 = a \<and> k2 = c) \<or> (k1 = c \<and> k2 = a))) \<or>
         (f = csv \<and> ((k1 = b \<and> k2 = h) \<or> (k1 = h \<and> k2 = b)))"
  using assms by blast

text \<open>
  Claim C6, as stated: no format string appears in the member-format lists of two
  distinct categories. It fails: \<open>GIF\<close> is listed under \<open>images\<close> and under \<open>video\<close>.
\<close>

theorem gif_in_two_categories_counterexample:
  "''GIF'' \<in> set (availableFormats ''images'') \<and> ''GIF'' \<in> set (availableFormats ''video'') \<and>
   ''images'' \<noteq> ''video''"
  by (simp add: availableFormats_def conversionCategories_def)

text \<open>
  Claim C6, amended: a format string that appears in the member-format lists of two
  distinct categories is \<open>GIF\<close>, listed under \<open>images\<close> and \<open>video\<close>, or \<open>CSV\<close>, listed
  under \<open>documents\<close> and \<open>other\<close>; every other format string belongs to at most one
  category.
\<close>

theorem category_overlap_only_gif_csv:
  assumes "k1 \<noteq> k2" "f \<in> set (availableFormats k1)" "f \<in> set (availableFormats k2)"
  shows "(f = ''GIF'' \<and> {k1, k2} = {''images'', ''video''}) \<or>
         (f = ''CSV'' \<and> {k1, k2} = {''documents'', ''other''})"
proof -
  have g: "(f = ''GIF'' \<and> ((k1 = ''images'' \<and> k2 = ''video'') \<or> (k1 = ''video'' \<and> k2 = ''images''))) \<or>
           (f = ''CSV'' \<and> ((k1 = ''documents'' \<and> k2 = ''other'') \<or>
                            (k1 = ''other'' \<and> k2 = ''documents'')))"
    by (rule two_memberships[OF assms(1) membership_cases[OF assms(2)]
          membership_cases[OF assms(3)]])
       (erule list_exclusion(1), erule list_exclusion(2), erule list_exclusion(3),
        erule list_exclusion(4), erule list_exclusion(5), erule list_exclusion(6), assumption,
        erule list_exclusion(7))
  have d: "\<And>a b c d::string. (a = c \<and> b = d) \<or> (a = d \<and> b = c) \<Longrightarrow> {a, b} = {c, d}"
    by (simp add: doubleton_eq_iff)
  from g d[of k1 "''images''" k2 "''video''"] d[of k1 "''documents''" k2 "''other''"]
  show ?thesis by argo
qed

theorem category_overlap_only_gif_csv_witness:
  "''documents'' \<noteq> ''other'' \<and> ''CSV'' \<in> set (availableFormats ''documents'') \<and>
   ''CSV'' \<in> set (availableFormats ''other'') \<and>
   {''documents'', ''other''} = {''documents'', ''other''}"
proof -
  have h: "''documents'' \<noteq> ''other''" "''CSV'' \<in> set (availableFormats ''documents'')"
    "''CSV'' \<in> set (availableFormats ''other'')"
    by (simp_all add: availableFormats_def conversionCategories_def)
  from category_overlap_only_gif_csv[OF h] h show ?thesis by simp
qed

lemma listed_formats_upper:
  "\<forall>t \<in> set (concat (map (\<lambda>c. formats (snd c)) conversionCategories)).
      t \<noteq> [] \<and> toUpperCase t = t"
  by (simp add: conversionCategories_def case_defs)

lemma validFormat_listed:
  "validFormat t \<longleftrightarrow> t \<in> set (concat (map (\<lambda>c. formats (snd c)) conversionCategories))"
  using listed_formats_upper by (auto simp: validFormat_def)

lemma supportedConversions_entries:
  "\<forall>e \<in> set supportedConversions. fst e \<noteq> [] \<and> snd e \<noteq> [] \<and>
      set (snd e) \<subseteq> set (concat (map (\<lambda>c. formats (snd c)) conversionCategories))"
  by (simp add: supportedConversions_def conversionCategories_def)

text \<open>No key is written twice in the literal, so the association list is the object.\<close>

lemma supportedConversions_distinct: "distinct (map fst supportedConversions)"
  by (simp add: supportedConversions_def)

lemma prototype_keys_not_upper: "\<forall>k \<in> set objectPrototypeKeys. toUpperCase k \<noteq> k"
  by (simp add: objectPrototypeKeys_def case_defs)

lemma targetFormats_key:
  assumes "f \<in> set (map fst supportedConversions)"
  shows "\<exists>ts. targetFormats (Some f) = Targets ts \<and> ts \<noteq> [] \<and> (\<forall>t \<in> set ts. validFormat t)"
proof -
  from assms obtain ts where m: "map_of supportedConversions f = Some ts"
    by (metis map_of_eq_None_iff not_Some_eq set_map)
  then have e: "(f, ts) \<in> set supportedConversions" by (rule map_of_SomeD)
  with supportedConversions_entries have p: "f \<noteq> []" "ts \<noteq> []"
    "set ts \<subseteq> set (concat (map (\<lambda>c. formats (snd c)) conversionCategories))"
    by fastforce+
  have "targetFormats (Some f) = Targets ts"
    using m p(1) by (simp add: targetFormats_def getProperty_def)
  moreover have "\<forall>t \<in> set ts. validFormat t"
    using p(3) by (auto simp only: validFormat_listed)
  ultimately show ?thesis using p(2) by blast
qed

lemma targetFormats_unknown:
  assumes "toUpperCase f = f" "f \<notin> set (map fst supportedConversions)"
  shows "targetFormats (Some f) = Targets []"
proof -
  have m: "map_of supportedConversions f = None"
    using assms(2) by (simp add: map_of_eq_None_iff)
  have "f \<notin> set objectPrototypeKeys"
    using assms(1) prototype_keys_not_upper by blast
  with m show ?thesis
    by (simp add: targetFormats_def getProperty_def)
qed

text \<open>
  Claim C7: for every format that is a key of \<open>supportedConversions\<close> the lookup returns a
  non-empty list, every entry of which is a valid upper-case format string; for every
  normalised (upper-case) format that is not a key, and when no source format is selected,
  it returns the empty list; no case throws.
\<close>

theorem targetFormats_known_and_unknown:
  "(f \<in> set (map fst supportedConversions) \<longrightarrow>
      (\<exists>ts. targetFormats (Some f) = Targets ts \<and> ts \<noteq> [] \<and> (\<forall>t \<in> set ts. validFormat t))) \<and>
   (toUpperCase g = g \<and> g \<notin> set (map fst supportedConversions) \<longrightarrow>
      targetFormats (Some g) = Targets []) \<and>
   targetFormats None = Targets []"
  using targetFormats_key[of f] targetFormats_unknown[of g]
  by (simp add: targetFormats_def)

theorem targetFormats_known_and_unknown_witness:
  "''JPEG'' \<in> set (map fst supportedConversions) \<and>
   targetFormats (Some ''JPEG'') = Targets [''PNG'', ''WEBP'', ''BMP'', ''TIFF'', ''GIF''] \<and>
   toUpperCase ''UNKNOWNFMT'' = ''UNKNOWNFMT'' \<and>
   ''UNKNOWNFMT'' \<notin> set (map fst supportedConversions) \<and>
   targetFormats (Some ''UNKNOWNFMT'') = Targets []"
proof -
  have k: "''JPEG'' \<in> set (map fst supportedConversions)"
    by (simp add: supportedConversions_def)
  have u: "toUpperCase ''UNKNOWNFMT'' = ''UNKNOWNFMT''"
    "''UNKNOWNFMT'' \<notin> set (map fst supportedConversions)"
    by (simp_all add: supportedConversions_def case_defs)
  have j: "targetFormats (Some ''JPEG'') = Targets [''PNG'', ''WEBP'', ''BMP'', ''TIFF'', ''GIF'']"
    by (simp add: targetFormats_def getProperty_def supportedConversions_def)
  from targetFormats_known_and_unknown[of "''JPEG''" "''UNKNOWNFMT''"] k u j
  show ?thesis by simp
qed

text \<open>
  A lower-case key inherited from \<open>Object.prototype\<close> is outside the normalised formats
  and is not answered with a list.
\<close>

lemma targetFormats_inherited:
  "targetFormats (Some ''constructor'') = Inherited ''constructor''"
  by (simp add: targetFormats_def getProperty_def supportedConversions_def
      objectPrototypeKeys_def)

text \<open>
  Claim C9: \<open>isMultiPageConversion\<close> is true exactly when the source upper-cases to \<open>PDF\<close>
  and the target upper-cases to \<open>JPEG\<close> or \<open>PNG\<close>; it is true of \<open>(PDF, PNG)\<close> and false
  of \<open>(PDF, DOCX)\<close> and of \<open>(JPEG, PNG)\<close>.
\<close>

theorem isMultiPageConversion_iff:
  "isMultiPageConversion s t =
     (\<exists>a b. s = Some a \<and> t = Some b \<and> toUpperCase a = ''PDF'' \<and>
            (toUpperCase b = ''JPEG'' \<or> toUpperCase b = ''PNG'')) \<and>
   isMultiPageConversion (Some ''PDF'') (Some ''PNG'') \<and>
   \<not> isMultiPageConversion (Some ''PDF'') (Some ''DOCX'') \<and>
   \<not> isMultiPageConversion (Some ''JPEG'') (Some ''PNG'')"
proof -
  have "isMultiPageConversion s t =
     (\<exists>a b. s = Some a \<and> t = Some b \<and> toUpperCase a = ''PDF'' \<and>
            (toUpperCase b = ''JPEG'' \<or> toUpperCase b = ''PNG''))"
    by (cases s; cases t) (auto simp: isMultiPageConversion_def)
  moreover have "isMultiPageConversion (Some ''PDF'') (Some ''PNG'') \<and>
     \<not> isMultiPageConversion (Some ''PDF'') (Some ''DOCX'') \<and>
     \<not> isMultiPageConversion (Some ''JPEG'') (Some ''PNG'')"
    by (simp add: isMultiPageConversion_def case_defs)
  ultimately show ?thesis by blast
qed

lemma isMultiPageConversion_mixed_case:
  "isMultiPageConversion (Some ''pdf'') (Some ''Jpeg'') \<and> \<not> isMultiPageConversion None (Some ''PNG'')"
  by (simp add: isMultiPageConversion_def case_defs)

lemma categoryLoop_unfold:
  "categoryLoop conversionCategories format =
     (let u = toUpperCase format in
      if u \<in> set imageFormats then ''images''
      else if u \<in> set documentFormats then ''documents''
      else if u \<in> set (videoFormats @ [''GIF'']) then ''video''
      else if u \<in> set audioFormats then ''audio''
      else if u \<in> set archiveFormats then ''archives''
      else ''other'')"
proof -
  have c: "conversionCategories =
     [(''images'', snd (conversionCategories ! 0)), (''documents'', snd (conversionCategories ! 1)),
      (''video'', snd (conversionCategories ! 2)), (''audio'', snd (conversionCategories ! 3)),
      (''archives'', snd (conversionCategories ! 4)), (''other'', snd (conversionCategories ! 5))]"
    by (simp add: conversionCategories_def)
  have f0: "formats (snd (conversionCategories ! 0)) = imageFormats"
    by (simp add: conversionCategories_def imageFormats_def)
  have f1: "formats (snd (conversionCategories ! 1)) = documentFormats"
    by (simp add: conversionCategories_def documentFormats_def)
  have f2: "formats (snd (conversionCategories ! 2)) = videoFormats @ [''GIF'']"
    by (simp add: conversionCategories_def videoFormats_def)
  have f3: "formats (snd (conversionCategories ! 3)) = audioFormats"
    by (simp add: conversionCategories_def audioFormats_def)
  have f4: "formats (snd (conversionCategories ! 4)) = archiveFormats"
    by (simp add: conversionCategories_def archiveFormats_def)
  show ?thesis
    by (subst c) (simp only: categoryLoop.simps f0 f1 f2 f3 f4 Let_def if_cancel)
qed

lemma gif_is_image: "''GIF'' \<in> set imageFormats"
  by (simp add: imageFormats_def)

text \<open>
  Claim C10: \<open>getCategoryByFormat\<close>, which scans \<open>conversionCategories\<close>, and
  \<open>ConversionApi.getCategoryFromFormat\<close>, which tests its hard-coded lists, return the
  same category for every format string; for a format that no category declares both
  return \<open>other\<close>.
\<close>

theorem category_lookups_agree:
  "getCategoryByFormat format = getCategoryFromFormat format \<and>
   ((\<forall>k. toUpperCase format \<notin> set (availableFormats k)) \<longrightarrow>
      getCategoryByFormat format = ''other'' \<and> getCategoryFromFormat format = ''other'')"
proof -
  have eq: "getCategoryByFormat format = getCategoryFromFormat format"
  proof (cases "toUpperCase format \<in> set imageFormats")
    case True
    then show ?thesis
      by (simp add: getCategoryByFormat_def getCategoryFromFormat_def categoryLoop_unfold Let_def)
  next
    case False
    then have "toUpperCase format \<noteq> ''GIF''" using gif_is_image by metis
    with False show ?thesis
      by (simp add: getCategoryByFormat_def getCategoryFromFormat_def categoryLoop_unfold Let_def)
  qed
  have other: "getCategoryFromFormat format = ''other''"
    if n: "\<forall>k. toUpperCase format \<notin> set (availableFormats k)"
  proof -
    have "toUpperCase format \<notin> set imageFormats"
      using n[rule_format, of "''images''"] by (simp add: availableFormats_unfold)
    moreover have "toUpperCase format \<notin> set documentFormats"
      using n[rule_format, of "''documents''"] by (simp add: availableFormats_unfold)
    moreover have "toUpperCase format \<notin> set videoFormats"
      using n[rule_format, of "''video''"] by (simp add: availableFormats_unfold)
    moreover have "toUpperCase format \<notin> set audioFormats"
      using n[rule_format, of "''audio''"] by (simp add: availableFormats_unfold)
    moreover have "toUpperCase format \<notin> set archiveFormats"
      using n[rule_format, of "''archives''"] by (simp add: availableFormats_unfold)
    ultimately show ?thesis by (simp add: getCategoryFromFormat_def Let_def)
  qed
  show ?thesis using eq other by simp
qed

theorem category_lookups_agree_witness:
  "(\<forall>k. toUpperCase ''UNKNOWNFMT'' \<notin> set (availableFormats k)) \<and>
   getCategoryByFormat ''UNKNOWNFMT'' = ''other'' \<and>
   getCategoryFromFormat ''UNKNOWNFMT'' = ''other'' \<and>
   getCategoryByFormat ''gif'' = getCategoryFromFormat ''gif''"
proof -
  have u: "toUpperCase ''UNKNOWNFMT'' = ''UNKNOWNFMT''" by (simp add: case_defs)
  have h: "\<forall>k. toUpperCase ''UNKNOWNFMT'' \<notin> set (availableFormats k)"
    unfolding u
    by (simp add: availableFormats_unfold imageFormats_def documentFormats_def videoFormats_def
        audioFormats_def archiveFormats_def)
  from category_lookups_agree[of "''UNKNOWNFMT''"] category_lookups_agree[of "''gif''"] h
  show ?thesis by simp
qed

section \<open>Properties of the polling loop\<close>

lemma poll_skip:
  "\<forall>r \<in> set pre. keepsPolling r \<Longrightarrow>
     pollConversionStatus (pre @ rest) = pollConversionStatus rest"
proof (induction pre)
  case Nil
  then show ?case by simp
next
  case (Cons r pre)
  then obtain sd where r: "r = Inr sd" "status sd = ''processing'' \<or> status sd = ''pending''"
    by (cases r) (auto simp: keepsPolling_def)
  from r(2) have "status sd \<noteq> ''completed''" "status sd \<noteq> ''failed''" by auto
  then show ?case using Cons r by simp
qed

text \<open>
  Claim C2, as stated: a \<open>failed\<close> status rejects with exactly the server-reported
  \<open>error_message\<close>, the generic message being used only when the field is absent. It
  fails for the empty string, which \<open>||\<close> treats as absent: the server reports the empty
  message and the rejection carries \<open>Conversion failed\<close>.
\<close>

theorem poll_empty_error_message_counterexample:
  "pollConversionStatus [Inr (failedWith (Some []))]
     = Rejected (ConversionApiError ''Conversion failed'' None)"
  by (simp add: failedWith_def orElse_def)

text \<open>
  Claim C2, amended: after any number of \<open>processing\<close> or \<open>pending\<close> payloads the loop is
  still pending, and on the next payload it resolves with that payload when the status is
  \<open>completed\<close>; rejects when the status is \<open>failed\<close>, with exactly the server-reported
  \<open>error_message\<close> when that is a non-empty string and with \<open>Conversion failed\<close> when it is
  absent or empty; goes on with the rest of the sequence when the status is \<open>processing\<close>
  or \<open>pending\<close>; and rejects with \<open>Unknown status: ...\<close> on any other status. It stays
  pending after that payload if and only if the status is \<open>processing\<close> or \<open>pending\<close>.
\<close>

theorem poll_settles_by_status:
  assumes "\<forall>r \<in> set pre. keepsPolling r"
  shows "pollConversionStatus pre = Pending \<and>
    (status sd = ''completed'' \<longrightarrow> pollConversionStatus (pre @ Inr sd # post) = Resolved sd) \<and>
    (status sd = ''failed'' \<longrightarrow>
       pollConversionStatus (pre @ Inr sd # post)
         = Rejected (ConversionApiError
             (case error_message sd of
                None \<Rightarrow> ''Conversion failed''
              | Some m \<Rightarrow> if m = [] then ''Conversion failed'' else m) None)) \<and>
    (status sd = ''processing'' \<or> status sd = ''pending'' \<longrightarrow>
       pollConversionStatus (pre @ Inr sd # post) = pollConversionStatus post) \<and>
    (status sd \<noteq> ''completed'' \<and> status sd \<noteq> ''failed'' \<and> status sd \<noteq> ''processing'' \<and>
     status sd \<noteq> ''pending'' \<longrightarrow>
       pollConversionStatus (pre @ Inr sd # post)
         = Rejected (ConversionApiError (''Unknown status: '' @ status sd) None)) \<and>
    ((pollConversionStatus (pre @ [Inr sd]) = Pending)
       = (status sd = ''processing'' \<or> status sd = ''pending''))"
proof -
  have p: "pollConversionStatus pre = Pending"
    using poll_skip[OF assms, of "[]"] by simp
  have s: "pollConversionStatus (pre @ Inr sd # rest) = pollConversionStatus (Inr sd # rest)"
    for rest
    using assms by (rule poll_skip)
  show ?thesis
    unfolding s p by (auto simp: orElse_def split: option.splits)
qed

theorem poll_settles_by_status_witness:
  "keepsPolling (Inr stillProcessing) \<and>
   pollConversionStatus [Inr stillProcessing] = Pending \<and>
   pollConversionStatus ([Inr stillProcessing] @ [Inr (failedWith (Some ''corrupt file''))])
     = Rejected (ConversionApiError ''corrupt file'' None) \<and>
   pollConversionStatus ([Inr stillProcessing] @ [Inr (failedWith None)])
     = Rejected (ConversionApiError ''Conversion failed'' None)"
proof -
  have h: "\<forall>r \<in> set [Inr stillProcessing]. keepsPolling r"
    by (simp add: keepsPolling_def stillProcessing_def)
  have f: "status (failedWith m) = ''failed''" "error_message (failedWith m) = m" for m
    by (simp_all add: failedWith_def)
  from h have k: "keepsPolling (Inr stillProcessing)" by simp
  show ?thesis
    using k poll_settles_by_status[OF h, of "failedWith (Some ''corrupt file'')" "[]"]
      poll_settles_by_status[OF h, of "failedWith None" "[]"]
    by (simp add: f)
qed

text \<open>A status call that throws rejects the loop with that error.\<close>

lemma poll_status_call_throws:
  "\<forall>r \<in> set pre. keepsPolling r \<Longrightarrow>
     pollConversionStatus (pre @ Inl err # post) = Rejected err"
  by (simp add: poll_skip)

section \<open>Properties of the two clients\<close>

lemma mockLoop_eq:
  "mockLoop rnd b tf fs i acc = acc @ map (\<lambda>j. mockResult rnd b tf j (fs ! j)) [i..<length fs]"
proof (induction rnd b tf fs i acc rule: mockLoop.induct)
  case (1 rnd b tf fs i acc)
  show ?case
  proof (cases "i < length fs")
    case True
    then show ?thesis
      using "1.IH" by (subst mockLoop.simps) (simp add: upt_conv_Cons)
  next
    case False
    then show ?thesis by (subst mockLoop.simps) simp
  qed
qed

lemma mock_results:
  "results (mockConvertFiles rnd b t0 t1 fs sf tf)
     = map (\<lambda>j. mockResult rnd b tf j (fs ! j)) [0..<length fs]"
  by (simp add: mockConvertFiles_def Let_def mockLoop_eq)



lemma mock_flags:
  "outcome_success (mockConvertFiles rnd b t0 t1 fs sf tf) \<and>
   cd_success (outcome_data (mockConvertFiles rnd b t0 t1 fs sf tf)) =
     (\<exists>r \<in> set (results (mockConvertFiles rnd b t0 t1 fs sf tf)). success r)"
  by (simp add: mockConvertFiles_def Let_def filter_empty_conv)

lemma api_flags:
  "apiConvertFiles upload polls t0 t1 fs sf tf = Resolved out \<Longrightarrow>
   outcome_success out \<and> cd_success (outcome_data out) = (\<exists>r \<in> set (results out). success r)"
  by (auto simp: apiConvertFiles_def Let_def filter_empty_conv split: sum.splits promise.splits)

text \<open>
  Claim C3, as stated: the overall success flag of the returned outcome is true if and
  only if at least one per-file result succeeded. It fails for the \<open>success\<close> field of the
  returned object, which is the constant \<open>true\<close>: with draws of 0.01 all three files of a mock
  conversion fail and the returned \<open>success\<close> is still true.
\<close>

theorem outcome_success_without_successful_file_counterexample:
  "map success (results (mockConvertFiles unluckyDraws 0 0 1650 threeImages ''JPEG'' ''PNG''))
     = [False, False, False] \<and>
   outcome_success (mockConvertFiles unluckyDraws 0 0 1650 threeImages ''JPEG'' ''PNG'')"
proof -
  have "map success (results (mockConvertFiles unluckyDraws 0 0 1650 threeImages ''JPEG'' ''PNG''))
     = [False, False, False]"
    by (simp add: mock_results threeImages_def mockResult_def unluckyDraws_def upt_rec)
  moreover have
    "outcome_success (mockConvertFiles unluckyDraws 0 0 1650 threeImages ''JPEG'' ''PNG'')"
    by (simp add: mockConvertFiles_def Let_def)
  ultimately show ?thesis by simp
qed

text \<open>
  Claim C3, amended: for every batch conversion returning normally, by the mock or by
  the real client, the success flag of the conversion record packaged in the returned
  outcome (\<open>conversionData.success\<close>) is true if and only if at least one per-file result
  entry has \<open>success = true\<close>; the top-level \<open>success\<close> flag of the returned outcome is
  true in every case.
\<close>

theorem conversion_record_success_iff_some_file:
  "outcome_success (mockConvertFiles rnd b t0 t1 fs sf tf) \<and>
   cd_success (outcome_data (mockConvertFiles rnd b t0 t1 fs sf tf)) =
     (\<exists>r \<in> set (results (mockConvertFiles rnd b t0 t1 fs sf tf)). success r) \<and>
   (apiConvertFiles upload polls t0 t1 fs sf tf = Resolved out \<longrightarrow>
      outcome_success out \<and>
      cd_success (outcome_data out) = (\<exists>r \<in> set (results out). success r))"
  using mock_flags[of rnd b t0 t1 fs sf tf] api_flags[of upload polls t0 t1 fs sf tf out]
  by blast

lemma healthy_api_resolves:
  "\<exists>out. apiConvertFiles (env_upload healthyEnv) (env_polls healthyEnv) 0 2000 twoJpegs
            ''JPEG'' ''PNG'' = Resolved out \<and>
         map success (results out) = [True, False]"
  by (simp add: apiConvertFiles_def healthyEnv_def stillProcessing_def completedJob_def Let_def
      processResult_def)

theorem conversion_record_success_iff_some_file_witness:
  "\<exists>out. apiConvertFiles (env_upload healthyEnv) (env_polls healthyEnv) 0 2000 twoJpegs
            ''JPEG'' ''PNG'' = Resolved out \<and>
         map success (results out) = [True, False] \<and>
         outcome_success out \<and> cd_success (outcome_data out)"
proof -
  from healthy_api_resolves obtain out where
    o: "apiConvertFiles (env_upload healthyEnv) (env_polls healthyEnv) 0 2000 twoJpegs
          ''JPEG'' ''PNG'' = Resolved out"
    and m: "map success (results out) = [True, False]"
    by auto
  from m have e: "\<exists>r \<in> set (results out). success r"
    by (cases "results out") auto
  from o
    conversion_record_success_iff_some_file[of luckyDraws 0 0 2000 twoJpegs "''JPEG''" "''PNG''"
      "env_upload healthyEnv" "env_polls healthyEnv" out]
  have f: "outcome_success out \<and> cd_success (outcome_data out) = (\<exists>r \<in> set (results out). success r)"
    by simp
  show ?thesis
    using o m e f by (intro exI[of _ out]) simp
qed






text \<open>A name in which the pattern matches nowhere is returned unchanged.\<close>

lemma replaceFrom_no_match:
  "\<forall>k < length s. \<not> extMatch (drop k s) \<Longrightarrow> replaceFrom before s r = before @ s"
proof (induction s arbitrary: before)
  case Nil
  then show ?case by simp
next
  case (Cons c s)
  have a: "\<not> extMatch (c # s)" using Cons.prems[rule_format, of 0] by simp
  have "\<forall>k < length s. \<not> extMatch (drop k s)"
  proof (intro allI impI)
    fix k assume "k < length s"
    then show "\<not> extMatch (drop k s)" using Cons.prems[rule_format, of "Suc k"] by simp
  qed
  then show ?case using a Cons.IH[of "before @ [c]"] by simp
qed


lemma replaceExtension_examples:
  "replaceExtension ''archive.tar.gz'' (''.'' @ toLowerCase ''ZIP'') = ''archive.tar.zip''"
  "replaceExtension ''README'' (''.'' @ toLowerCase ''PNG'') = ''README''"
  "replaceExtension ''a.b.jpg'' (''.'' @ toLowerCase ''$&x'') = ''a.b..jpgx''"
  by (simp_all add: replaceExtension_def extMatch_def case_defs)



lemma mock_end_to_end_names:
  "map convertedFileName (results (mockConvertFiles rnd b t0 t1 twoJpegs ''JPEG'' ''PNG''))
     = [''a.png'', ''b.png'']"
  by (simp add: mock_results twoJpegs_def mockResult_def upt_rec replaceExtension_def
      extMatch_def case_defs)






section \<open>Properties of the orchestrator\<close>















text \<open>
  Without such an event the real client keeps being used: a healthy backend serves two
  conversions in a row after a single probe.
\<close>

lemma healthy_session_calls:
  "map snd (fst (session None [ConvertFiles healthyEnv twoJpegs ''JPEG'' ''PNG'',
                               ConvertFiles healthyEnv twoJpegs ''JPEG'' ''PNG'']))
     = [[CheckHealth, ApiConvert], [ApiConvert]]"
  by (simp add: smartConvertFiles_def checkBackendAvailability_def apiConvertFiles_def
      healthyEnv_def stillProcessing_def completedJob_def Let_def)

section \<open>Properties of the session state\<close>

lemma filterIndex_offset:
  "map snd (filter (\<lambda>p. fst p \<noteq> i) (zip [k..<k + length xs] xs))
     = (if i < k then xs else take (i - k) xs @ drop (Suc (i - k)) xs)"
proof (induction xs arbitrary: k)
  case Nil
  then show ?case by simp
next
  case (Cons x xs)
  have z: "zip [k..<k + length (x # xs)] (x # xs) = (k, x) # zip [Suc k..<Suc k + length xs] xs"
    by (subst upt_rec) simp
  show ?case
  proof (cases "i < k")
    case True
    then show ?thesis using Cons.IH[of "Suc k"] by (simp only: z) simp
  next
    case False
    show ?thesis
    proof (cases "i = k")
      case True
      then show ?thesis using Cons.IH[of "Suc k"] by (simp only: z) simp
    next
      case ne: False
      with False have "k < i" by simp
      then have "i - k = Suc (i - Suc k)" by simp
      then show ?thesis using Cons.IH[of "Suc k"] False ne by (simp only: z) simp
    qed
  qed
qed

lemma filterIndex_eq: "filterIndex i xs = take i xs @ drop (Suc i) xs"
  using filterIndex_offset[of i 0 xs] by (simp add: filterIndex_def)

lemma fresh_mono: "fresh lo hi p \<Longrightarrow> lo' \<le> lo \<Longrightarrow> hi \<le> hi' \<Longrightarrow> fresh lo' hi' p"
  by (auto simp: fresh_def split: option.splits url.splits)

lemma generatePreviewUrls_props:
  "generatePreviewUrls fs n = (ps, n') \<Longrightarrow>
     n \<le> n' \<and> aligned fs ps \<and> (\<forall>p \<in> set ps. fresh n n' p) \<and> distinct (map the (filter truthy ps))"
proof (induction fs arbitrary: n ps n')
  case Nil
  then show ?case by (simp add: aligned_def)
next
  case (Cons f fs)
  show ?case
  proof (cases "prefix ''image/'' (type_file f)")
    case True
    obtain qs m where g: "generatePreviewUrls fs (Suc n) = (qs, m)" by (cases "generatePreviewUrls fs (Suc n)")
    with Cons.prems True have e: "ps = Some (ObjectUrl n) # qs" "n' = m" by simp_all
    from Cons.IH[OF g] have ih: "Suc n \<le> m" "aligned fs qs" "\<forall>p \<in> set qs. fresh (Suc n) m p"
      "distinct (map the (filter truthy qs))" by simp_all
    have notin: "ObjectUrl n \<notin> set (map the (filter truthy qs))"
    proof
      assume "ObjectUrl n \<in> set (map the (filter truthy qs))"
      then obtain p where p: "p \<in> set qs" "truthy p" "the p = ObjectUrl n" by auto
      with ih(3) have "fresh (Suc n) m p" by blast
      with p(2,3) show False by (cases p) (auto simp: fresh_def)
    qed
    have fr: "\<forall>p \<in> set qs. fresh n m p"
      using ih(3) fresh_mono[of "Suc n" m _ n m] by auto
    show ?thesis using ih True notin fr e by (simp add: aligned_def fresh_def)
  next
    case False
    obtain qs m where g: "generatePreviewUrls fs n = (qs, m)" by (cases "generatePreviewUrls fs n")
    with Cons.prems False have e: "ps = None # qs" "n' = m" by simp_all
    from Cons.IH[OF g] show ?thesis using False e by (simp add: aligned_def fresh_def)
  qed
qed


lemma liveUrls_fresh:
  assumes "\<forall>p \<in> set ps. fresh lo hi p" "u \<in> set (map the (filter truthy ps))"
  shows "fresh lo hi (Some u)"
proof -
  from assms(2) obtain p where p: "p \<in> set ps" "truthy p" "u = the p" by auto
  from p(2) have "p = Some u" using p(3) by (cases p) auto
  with assms(1) p(1) show ?thesis by auto
qed

lemma fresh_disjoint:
  assumes "fresh lo mid (Some u)" "fresh mid hi (Some v)"
  shows "u \<noteq> v"
  using assms by (auto simp: fresh_def split: url.splits)

lemma inv_start: "sessionInv \<lparr>app = initialState dark, nextObjectUrl = n, revoked = []\<rparr>"
  by (simp add: sessionInv_def initialState_def aligned_def liveUrls_def)

lemma inv_elsewhere:
  assumes "sessionInv w"
  shows "sessionInv (w\<lparr>nextObjectUrl := nextObjectUrl w + k\<rparr>)"
  using assms fresh_mono[of 0 "nextObjectUrl w" _ 0 "nextObjectUrl w + k"]
  by (simp add: sessionInv_def liveUrls_def)

lemma inv_direct:
  assumes "sessionInv w" "dispatchedDirectly a"
  shows "sessionInv (dispatch a w)"
  using assms by (cases a) (simp_all add: sessionInv_def liveUrls_def dispatch_def)

lemma inv_revokeAll_then:
  assumes "sessionInv w"
    and "selectedFiles (app w') = []" "previewUrls (app w') = []"
    and "nextObjectUrl w' = nextObjectUrl w" "revoked w' = revoked (revokeAll w)"
  shows "sessionInv w'"
proof -
  have d: "distinct (revoked w @ liveUrls w)"
    using assms(1) by (auto simp: sessionInv_def)
  have f: "\<forall>u \<in> set (revoked w @ liveUrls w). fresh 0 (nextObjectUrl w) (Some u)"
    using assms(1) liveUrls_fresh[of "previewUrls (app w)" 0 "nextObjectUrl w"]
    by (auto simp: sessionInv_def liveUrls_def)
  have r: "revoked w' = revoked w @ liveUrls w"
    using assms(5) by (simp add: revokeAll_def liveUrls_def)
  show ?thesis
    using d f assms(2,3,4) unfolding sessionInv_def r
    by (simp add: aligned_def liveUrls_def)
qed

lemma inv_clear: "sessionInv w \<Longrightarrow> sessionInv (clearFiles w)"
  by (erule inv_revokeAll_then) (simp_all add: clearFiles_def dispatch_def revokeAll_def)

lemma inv_reset: "sessionInv w \<Longrightarrow> sessionInv (resetConversion w)"
  by (erule inv_revokeAll_then) (simp_all add: resetConversion_def dispatch_def revokeAll_def)

lemma inv_resetKeep: "sessionInv w \<Longrightarrow> sessionInv (resetConversionKeepCategory w)"
  by (erule inv_revokeAll_then) (simp_all add: resetConversionKeepCategory_def dispatch_def revokeAll_def)


lemma new_previews:
  assumes "sessionInv w" "generatePreviewUrls fs (nextObjectUrl w) = (qs, m)"
  shows "nextObjectUrl w \<le> m" "aligned fs qs" "\<forall>p \<in> set qs. fresh 0 m p"
    "\<forall>p \<in> set (previewUrls (app w)). fresh 0 m p"
    "\<forall>u \<in> set (revoked w). fresh 0 m (Some u)"
    "distinct (map the (filter truthy qs) @ liveUrls w @ revoked w)"
proof -
  note g = generatePreviewUrls_props[OF assms(2)]
  show le: "nextObjectUrl w \<le> m" and "aligned fs qs" using g by simp_all
  show "\<forall>p \<in> set qs. fresh 0 m p"
    using g fresh_mono[of "nextObjectUrl w" m _ 0 m] by auto
  show "\<forall>p \<in> set (previewUrls (app w)). fresh 0 m p"
    using assms(1) le fresh_mono[of 0 "nextObjectUrl w" _ 0 m] by (auto simp: sessionInv_def)
  show "\<forall>u \<in> set (revoked w). fresh 0 m (Some u)"
    using assms(1) le fresh_mono[of 0 "nextObjectUrl w" _ 0 m] by (auto simp: sessionInv_def)
  have old: "\<forall>u \<in> set (liveUrls w @ revoked w). fresh 0 (nextObjectUrl w) (Some u)"
    using assms(1) liveUrls_fresh[of "previewUrls (app w)" 0 "nextObjectUrl w"]
    by (auto simp: sessionInv_def liveUrls_def)
  have new: "\<forall>v \<in> set (map the (filter truthy qs)). fresh (nextObjectUrl w) m (Some v)"
    using g liveUrls_fresh[of qs "nextObjectUrl w" m] by blast
  have "set (map the (filter truthy qs)) \<inter> set (liveUrls w @ revoked w) = {}"
    using old new fresh_disjoint by blast
  moreover have "distinct (liveUrls w @ revoked w)" using assms(1) by (simp add: sessionInv_def)
  moreover have "distinct (map the (filter truthy qs))" using g by simp
  ultimately show "distinct (map the (filter truthy qs) @ liveUrls w @ revoked w)"
    by (simp only: distinct_append)
qed

lemma inv_add:
  assumes "sessionInv w"
  shows "sessionInv (addFiles fs w)"
proof -
  obtain qs m where g: "generatePreviewUrls fs (nextObjectUrl w) = (qs, m)"
    by (cases "generatePreviewUrls fs (nextObjectUrl w)")
  note n = new_previews[OF assms g]
  have a: "aligned (selectedFiles (app w)) (previewUrls (app w))"
    using assms by (simp add: sessionInv_def)
  have "aligned (selectedFiles (app w) @ fs) (previewUrls (app w) @ qs)"
    using a n(2) unfolding aligned_def by (rule list_all2_appendI)
  moreover have "distinct ((liveUrls w @ map the (filter truthy qs)) @ revoked w)"
    using n(6) by auto
  ultimately show ?thesis
    using n(3,4,5) by (auto simp add: sessionInv_def addFiles_def g dispatch_def liveUrls_def)
qed

lemma inv_set:
  assumes "sessionInv w"
  shows "sessionInv (setFiles fs w)"
proof -
  obtain qs m where g: "generatePreviewUrls fs (nextObjectUrl w) = (qs, m)"
    by (cases "generatePreviewUrls fs (nextObjectUrl w)")
  note n = new_previews[OF assms g]
  have "distinct (map the (filter truthy qs) @ revoked w)"
    using n(6) by auto
  then show ?thesis
    using n(2,3,5) by (auto simp add: sessionInv_def setFiles_def g dispatch_def liveUrls_def)
qed

lemma removeFile_in_range:
  assumes "i < length (previewUrls (app w))"
  shows "selectedFiles (app (removeFile i w)) = take i (selectedFiles (app w)) @ drop (Suc i) (selectedFiles (app w))"
    and "previewUrls (app (removeFile i w)) = take i (previewUrls (app w)) @ drop (Suc i) (previewUrls (app w))"
    and "revoked (removeFile i w) = revoked w @ (if truthy (previewUrls (app w) ! i) then [the (previewUrls (app w) ! i)] else [])"
    and "nextObjectUrl (removeFile i w) = nextObjectUrl w"
  using assms by (simp_all add: removeFile_def Let_def dispatch_def filterIndex_eq)

lemma removeFile_out_of_range:
  assumes "length (previewUrls (app w)) \<le> i" "length (selectedFiles (app w)) = length (previewUrls (app w))"
  shows "removeFile i w = w"
  using assms by (simp add: removeFile_def Let_def dispatch_def filterIndex_eq)

lemma inv_remove:
  assumes "sessionInv w"
  shows "sessionInv (removeFile i w)"
proof (cases "i < length (previewUrls (app w))")
  case False
  have "length (selectedFiles (app w)) = length (previewUrls (app w))"
    using assms by (auto simp: sessionInv_def aligned_def dest: list_all2_lengthD)
  with False have "removeFile i w = w" by (simp add: removeFile_out_of_range)
  with assms show ?thesis by simp
next
  case True
  let ?ps = "previewUrls (app w)" and ?fs = "selectedFiles (app w)"
  let ?gone = "if truthy (?ps ! i) then [the (?ps ! i)] else []"
  note r = removeFile_in_range[OF True]
  have split: "?ps = take i ?ps @ ?ps ! i # drop (Suc i) ?ps"
    using True by (rule id_take_nth_drop)
  have live: "liveUrls w = map the (filter truthy (take i ?ps)) @ ?gone @ map the (filter truthy (drop (Suc i) ?ps))"
    by (subst liveUrls_def, subst split) simp
  have al: "aligned (take i ?fs @ drop (Suc i) ?fs) (take i ?ps @ drop (Suc i) ?ps)"
    using assms unfolding sessionInv_def aligned_def
    by (auto intro!: list_all2_appendI list_all2_takeI list_all2_dropI)
  have fr: "\<forall>p \<in> set (take i ?ps @ drop (Suc i) ?ps). fresh 0 (nextObjectUrl w) p"
    using assms by (auto simp: sessionInv_def dest: in_set_takeD in_set_dropD)
  have "fresh 0 (nextObjectUrl w) (?ps ! i)"
    using assms True by (auto simp: sessionInv_def)
  then have frg: "\<forall>u \<in> set (revoked w @ ?gone). fresh 0 (nextObjectUrl w) (Some u)"
    using assms by (cases "?ps ! i") (auto simp: sessionInv_def)
  have "distinct (liveUrls w @ revoked w)" using assms by (simp add: sessionInv_def)
  then have d: "distinct ((map the (filter truthy (take i ?ps)) @ map the (filter truthy (drop (Suc i) ?ps))) @ revoked w @ ?gone)"
    unfolding live by auto
  show ?thesis
    unfolding sessionInv_def liveUrls_def r
    using al fr frg d by simp
qed

lemma reachable_inv: "reachable w \<Longrightarrow> sessionInv w"
  by (induction rule: reachable.induct)
     (simp_all add: inv_start inv_add inv_set inv_remove inv_clear inv_reset inv_resetKeep inv_direct inv_elsewhere)


text \<open>
  Claim C8: in every reachable session state the selected-files list and the preview-URL
  list have the same length and are index-aligned (entry \<open>j\<close> of the previews is a URL
  exactly when file \<open>j\<close> is an image), and no URL has been released twice; \<open>removeFile\<close>
  at an index \<open>i\<close> within range removes exactly element \<open>i\<close> of both lists and, when that
  preview is not null, releases its URL, which then occurs exactly once among the released
  URLs and is no longer held by the state.
\<close>

theorem session_previews_aligned:
  assumes "reachable w"
  shows "length (selectedFiles (app w)) = length (previewUrls (app w)) \<and>
         (\<forall>j < length (selectedFiles (app w)).
             (previewUrls (app w) ! j \<noteq> None) = prefix ''image/'' (type_file (selectedFiles (app w) ! j))) \<and>
         distinct (revoked w) \<and>
         (i < length (selectedFiles (app w)) \<longrightarrow>
            selectedFiles (app (removeFile i w))
              = take i (selectedFiles (app w)) @ drop (Suc i) (selectedFiles (app w)) \<and>
            previewUrls (app (removeFile i w))
              = take i (previewUrls (app w)) @ drop (Suc i) (previewUrls (app w)) \<and>
            revoked (removeFile i w)
              = revoked w @ (case previewUrls (app w) ! i of None \<Rightarrow> [] | Some u \<Rightarrow> [u]) \<and>
            (\<forall>u. previewUrls (app w) ! i = Some u \<longrightarrow>
                 count_list (revoked (removeFile i w)) u = 1 \<and>
                 Some u \<notin> set (previewUrls (app (removeFile i w)))))"
proof -
  let ?ps = "previewUrls (app w)" and ?fs = "selectedFiles (app w)"
  have inv: "sessionInv w" using assms by (rule reachable_inv)
  then have al: "list_all2 (\<lambda>f p. (p \<noteq> None) = prefix ''image/'' (type_file f)) ?fs ?ps"
    by (simp add: sessionInv_def aligned_def)
  have len: "length ?fs = length ?ps" using al by (rule list_all2_lengthD)
  have nth: "\<forall>j < length ?fs. (?ps ! j \<noteq> None) = prefix ''image/'' (type_file (?fs ! j))"
    using al by (simp add: list_all2_conv_all_nth)
  have dr: "distinct (revoked w)" using inv by (simp add: sessionInv_def)
  have rem: "i < length ?fs \<longrightarrow>
            selectedFiles (app (removeFile i w)) = take i ?fs @ drop (Suc i) ?fs \<and>
            previewUrls (app (removeFile i w)) = take i ?ps @ drop (Suc i) ?ps \<and>
            revoked (removeFile i w) = revoked w @ (case ?ps ! i of None \<Rightarrow> [] | Some u \<Rightarrow> [u]) \<and>
            (\<forall>u. ?ps ! i = Some u \<longrightarrow>
                 count_list (revoked (removeFile i w)) u = 1 \<and>
                 Some u \<notin> set (previewUrls (app (removeFile i w))))"
  proof
    assume i: "i < length ?fs"
    then have i': "i < length ?ps" using len by simp
    note r = removeFile_in_range[OF i']
    have fr: "fresh 0 (nextObjectUrl w) (?ps ! i)"
      using inv i' by (auto simp: sessionInv_def)
    then have tr: "truthy (?ps ! i) = (?ps ! i \<noteq> None)"
      by (cases "?ps ! i") (auto simp: fresh_def split: url.splits)
    have rv: "revoked (removeFile i w) = revoked w @ (case ?ps ! i of None \<Rightarrow> [] | Some u \<Rightarrow> [u])"
      unfolding r(3) tr by (cases "?ps ! i") simp_all
    have once: "count_list (revoked (removeFile i w)) u = 1 \<and>
                Some u \<notin> set (previewUrls (app (removeFile i w)))" if u: "?ps ! i = Some u" for u
    proof -
      have tu: "truthy (Some u)" using tr u by simp
      have "u \<in> set (liveUrls w)"
        unfolding liveUrls_def using u tu i' by (force simp: in_set_conv_nth)
      moreover have "distinct (liveUrls w @ revoked w)" using inv by (simp add: sessionInv_def)
      ultimately have "u \<notin> set (revoked w)" by auto
      then have c: "count_list (revoked (removeFile i w)) u = 1"
        unfolding rv u by (simp add: count_list_0_iff)
      have inv': "sessionInv (removeFile i w)" using inv by (rule inv_remove)
      have "u \<in> set (revoked (removeFile i w))" unfolding rv u by simp
      moreover have "distinct (liveUrls (removeFile i w) @ revoked (removeFile i w))"
        using inv' by (simp add: sessionInv_def)
      ultimately have "u \<notin> set (liveUrls (removeFile i w))" by auto
      then have "Some u \<notin> set (previewUrls (app (removeFile i w)))"
        unfolding liveUrls_def using tu by force
      with c show ?thesis by simp
    qed
    show "selectedFiles (app (removeFile i w)) = take i ?fs @ drop (Suc i) ?fs \<and>
            previewUrls (app (removeFile i w)) = take i ?ps @ drop (Suc i) ?ps \<and>
            revoked (removeFile i w) = revoked w @ (case ?ps ! i of None \<Rightarrow> [] | Some u \<Rightarrow> [u]) \<and>
            (\<forall>u. ?ps ! i = Some u \<longrightarrow>
                 count_list (revoked (removeFile i w)) u = 1 \<and>
                 Some u \<notin> set (previewUrls (app (removeFile i w))))"
      using r(1,2) rv once by blast
  qed
  show ?thesis using len nth dr rem by blast
qed

lemma threeFileSession_eval:
  "selectedFiles (app threeFileSession) = threeImages"
  "previewUrls (app threeFileSession) = [Some (ObjectUrl 0), Some (ObjectUrl 1), Some (ObjectUrl 2)]"
  "revoked threeFileSession = []"
  by (simp_all add: threeFileSession_def addFiles_def threeImages_def dispatch_def initialState_def)

theorem session_previews_aligned_witness:
  "reachable threeFileSession \<and>
   selectedFiles (app (removeFile 1 threeFileSession)) = [threeImages ! 0, threeImages ! 2] \<and>
   previewUrls (app (removeFile 1 threeFileSession)) = [Some (ObjectUrl 0), Some (ObjectUrl 2)] \<and>
   revoked (removeFile 1 threeFileSession) = [ObjectUrl 1] \<and>
   count_list (revoked (removeFile 1 threeFileSession)) (ObjectUrl 1) = 1"
proof -
  have r: "reachable threeFileSession"
    unfolding threeFileSession_def by (intro reachable.add reachable.start)
  show ?thesis
    using r session_previews_aligned[OF r, of 1]
    by (simp add: threeFileSession_eval) (simp add: threeImages_def)
qed

end
